theory Spec2Isabelle
  imports Complex_Main "HOL-Library.Sublist"
begin

section \<open>The stress-test harness of the Irrlicht hook receiver\<close>

text \<open>
  A shallow embedding of \<^verbatim>\<open>tools/stress-test.py\<close> (class \<^verbatim>\<open>StressTestRunner\<close>).
  Everything the Python code reads from its environment is an explicit argument of the
  model: the wall clock (\<^verbatim>\<open>time.time()\<close>) is a real number of seconds, each call of
  \<^verbatim>\<open>random.choice\<close> or \<^verbatim>\<open>random.randint\<close> consumes one natural number (its draw), the
  environment variable \<^verbatim>\<open>USER\<close> is a \<open>string option\<close>, and what \<^verbatim>\<open>subprocess.run\<close>
  did is a value of \<open>proc_outcome\<close>. Python floats are read as real numbers.
  A line written by \<^verbatim>\<open>print\<close> is a constructor of \<open>message\<close> carrying the values
  interpolated into the format string.
\<close>

subsection \<open>Python strings and numbers\<close>

text \<open>\<^verbatim>\<open>str(n)\<close> and \<^verbatim>\<open>f"{n}"\<close> for an integer: decimal digits, a minus sign if negative.\<close>

definition digit_char :: "nat \<Rightarrow> char" where
  "digit_char n = char_of (48 + n)"

fun str_nat :: "nat \<Rightarrow> string" where
  "str_nat n = (if n < 10 then [digit_char n] else str_nat (n div 10) @ [digit_char (n mod 10)])"

declare str_nat.simps [simp del]

definition str_int :: "int \<Rightarrow> string" where
  "str_int i = (if i < 0 then CHR ''-'' # str_nat (nat (- i)) else str_nat (nat i))"


text \<open>\<^verbatim>\<open>int(x)\<close> for a float: truncation towards zero.\<close>

definition py_int :: "real \<Rightarrow> int" where
  "py_int x = (if 0 \<le> x then \<lfloor>x\<rfloor> else \<lceil>x\<rceil>)"

text \<open>\<^verbatim>\<open>needle in haystack\<close> for two strings.\<close>

fun py_in :: "string \<Rightarrow> string \<Rightarrow> bool" where
  "py_in needle [] = (needle = [])"
| "py_in needle (c # cs) = (prefix needle (c # cs) \<or> py_in needle cs)"

definition is_digit :: "char \<Rightarrow> bool" where
  "is_digit c = (48 \<le> (of_char c :: nat) \<and> (of_char c :: nat) \<le> 57)"

subsection \<open>The random module\<close>

text \<open>
  \<^verbatim>\<open>random.choice(xs)\<close> with draw \<open>r\<close> (every element of a non-empty \<open>xs\<close> is the
  result for some draw; the harness only chooses from non-empty lists), and
  \<^verbatim>\<open>random.randint(a, b)\<close>, which returns an integer of the closed interval.
\<close>

definition random_choice :: "nat \<Rightarrow> 'a list \<Rightarrow> 'a" where
  "random_choice r xs = xs ! (r mod length xs)"

definition random_randint :: "nat \<Rightarrow> int \<Rightarrow> int \<Rightarrow> int" where
  "random_randint r a b = a + int (r mod nat (b - a + 1))"

subsection \<open>Dictionaries and \<^verbatim>\<open>json.dumps\<close>\<close>

text \<open>
  The values the harness puts into an event: strings, integers, booleans and nested
  dictionaries. A dictionary keeps its keys in insertion order.
\<close>

datatype json = JStr string | JInt int | JBool bool | JObj "(string \<times> json) list"

type_synonym dict = "(string \<times> json) list"


fun dict_set :: "dict \<Rightarrow> string \<Rightarrow> json \<Rightarrow> dict" where
  "dict_set [] k v = [(k, v)]"
| "dict_set ((k', v') # kvs) k v = (if k' = k then (k, v) # kvs else (k', v') # dict_set kvs k v)"

text \<open>\<^verbatim>\<open>d.update(other)\<close>\<close>

fun dict_update :: "dict \<Rightarrow> dict \<Rightarrow> dict" where
  "dict_update d [] = d"
| "dict_update d ((k, v) # kvs) = dict_update (dict_set d k v) kvs"


text \<open>
  \<^verbatim>\<open>json.dumps\<close> with its defaults (\<^verbatim>\<open>ensure_ascii=True\<close>, separators \<^verbatim>\<open>", "\<close> and
  \<^verbatim>\<open>": "\<close>). A character is a code point below 256; everything outside the printable
  ASCII range is written as an escape.
\<close>

definition hex_digit :: "nat \<Rightarrow> char" where
  "hex_digit n = ''0123456789abcdef'' ! (n mod 16)"

definition escape_char :: "char \<Rightarrow> string" where
  "escape_char c =
     (if c = CHR 0x5C then [CHR 0x5C, CHR 0x5C]
      else if c = CHR 0x22 then [CHR 0x5C, CHR 0x22]
      else if c = CHR 0x08 then [CHR 0x5C, CHR ''b'']
      else if c = CHR 0x0C then [CHR 0x5C, CHR ''f'']
      else if c = CHR 0x0A then [CHR 0x5C, CHR ''n'']
      else if c = CHR 0x0D then [CHR 0x5C, CHR ''r'']
      else if c = CHR 0x09 then [CHR 0x5C, CHR ''t'']
      else if 0x20 \<le> (of_char c :: nat) \<and> (of_char c :: nat) \<le> 0x7E then [c]
      else [CHR 0x5C, CHR ''u'', CHR ''0'', CHR ''0'',
            hex_digit ((of_char c :: nat) div 16), hex_digit ((of_char c :: nat) mod 16)])"

definition encode_basestring_ascii :: "string \<Rightarrow> string" where
  "encode_basestring_ascii s = [CHR 0x22] @ concat (map escape_char s) @ [CHR 0x22]"

fun dumps :: "json \<Rightarrow> string" and dumps_items :: "dict \<Rightarrow> string" where
  "dumps (JStr s) = encode_basestring_ascii s"
| "dumps (JInt i) = str_int i"
| "dumps (JBool b) = (if b then ''true'' else ''false'')"
| "dumps (JObj kvs) = ''{'' @ dumps_items kvs @ ''}''"
| "dumps_items [] = []"
| "dumps_items [(k, v)] = encode_basestring_ascii k @ '': '' @ dumps v"
| "dumps_items ((k, v) # kv # kvs) =
     encode_basestring_ascii k @ '': '' @ dumps v @ '', '' @ dumps_items (kv # kvs)"

subsection \<open>\<^verbatim>\<open>generate_event\<close> and \<^verbatim>\<open>generate_malformed_event\<close>\<close>

text \<open>The random draws one call of \<^verbatim>\<open>generate_event\<close> may consume, one field per call site.\<close>

record draws =
  d_session :: nat
  d_type :: nat
  d_model :: nat
  d_prompt :: nat
  d_attach :: nat
  d_msg :: nat
  d_notif :: nat

definition event_types :: "string list" where
  "event_types = [''SessionStart'', ''UserPromptSubmit'', ''Notification'',
                  ''Stop'', ''SubagentStop'', ''SessionEnd'']"


definition generate_event :: "draws \<Rightarrow> real \<Rightarrow> string option \<Rightarrow> string option \<Rightarrow> string option \<Rightarrow> dict" where
  "generate_event d now user session_id_arg event_type_arg =
     (let session_id =
            (case session_id_arg of
               None \<Rightarrow> ''sess_stress_'' @ str_int (random_randint (d_session d) 100000 999999)
             | Some s \<Rightarrow> if s = [] then ''sess_stress_'' @ str_int (random_randint (d_session d) 100000 999999)
                         else s);
          event_type =
            (case event_type_arg of
               None \<Rightarrow> random_choice (d_type d) event_types
             | Some t \<Rightarrow> if t = [] then random_choice (d_type d) event_types else t);
          username = (case user of None \<Rightarrow> ''testuser'' | Some u \<Rightarrow> u);
          data =
            [(''transcript_path'',
                JStr (''/Users/'' @ username @ ''/.claude/projects/stress-test-'' @ session_id
                      @ ''/transcript.jsonl'')),
             (''cwd'', JStr (''/Users/'' @ username @ ''/projects/stress-test-'' @ session_id)),
             (''model'',
                JStr (random_choice (d_model d)
                        [''claude-3.7-sonnet'', ''claude-3-haiku'', ''claude-3-opus'']))];
          data' =
            (if event_type = ''UserPromptSubmit'' then
               dict_update data
                 [(''prompt_length'', JInt (random_randint (d_prompt d) 10 5000)),
                  (''has_attachments'', JBool (random_choice (d_attach d) [True, False])),
                  (''message_id'', JStr (''msg_'' @ str_int (random_randint (d_msg d) 1000 9999)))]
             else if event_type = ''Notification'' then
               dict_update data
                 [(''notification_type'',
                     JStr (random_choice (d_notif d)
                             [''user_input_required'', ''confirmation_required''])),
                  (''message'', JStr ''Test notification message''),
                  (''context'', JStr ''stress_test'')]
             else data)
      in [(''hook_event_name'', JStr event_type),
          (''session_id'', JStr session_id),
          (''timestamp'', JStr (str_int (py_int (now * 1000000)))),
          (''data'', JObj data')])"

definition malformed_types :: "string list" where
  \<open>malformed_types =
     [''{"invalid": "json"'',
      ''{"hook_event_name": "InvalidEvent"}'',
      ''{"session_id": ""}'',
      dumps (JObj [(''hook_event_name'', JStr ''SessionStart''),
                   (''session_id'', JStr (replicate 600000 CHR ''x''))]),
      ''{}'']\<close>

definition generate_malformed_event :: "nat \<Rightarrow> string" where
  "generate_malformed_event r = random_choice r malformed_types"

subsection \<open>The runner and \<^verbatim>\<open>send_event\<close>\<close>

text \<open>\<^verbatim>\<open>self.results\<close> and the runner object, as \<^verbatim>\<open>__init__\<close> creates them.\<close>

record results =
  events_processed :: int
  errors :: int
  timeouts :: int
  latencies :: "real list"
  start_time :: "real option"
  end_time :: "real option"

record runner =
  hook_binary :: string
  results :: results
  running :: bool

definition init_results :: results where
  "init_results = \<lparr>events_processed = 0, errors = 0, timeouts = 0, latencies = [],
                    start_time = None, end_time = None\<rparr>"

definition init_runner :: "string \<Rightarrow> runner" where
  "init_runner hook_binary_path =
     \<lparr>hook_binary = hook_binary_path, results = init_results, running = True\<rparr>"

text \<open>
  One call of \<^verbatim>\<open>subprocess.run([self.hook_binary], input=json_data, text=True,
  capture_output=True, timeout=timeout)\<close>, and what it did: it returned a completed
  process (return code, standard output, standard error), or raised
  \<^verbatim>\<open>subprocess.TimeoutExpired\<close>, or raised another exception (with its \<^verbatim>\<open>str\<close>).
\<close>

record run_call =
  rc_args :: "string list"
  rc_input :: string
  rc_timeout :: real

datatype proc_outcome = Completed int string string | TimeoutExpired | Raised string

datatype exc = TimeoutExpiredExc | OtherException string

text \<open>The argument \<^verbatim>\<open>event_data\<close>: a dictionary, or a string that is sent as it is.\<close>

datatype event_data = Dict dict | Str string

definition json_data :: "event_data \<Rightarrow> string" where
  "json_data event_data = (case event_data of Dict d \<Rightarrow> dumps (JObj d) | Str s \<Rightarrow> s)"

definition default_timeout :: real where
  "default_timeout = 5"

text \<open>
  The body of the \<^verbatim>\<open>try\<close> block. \<open>t0\<close> is the clock read before the block, \<open>t1\<close>
  the clock read after \<^verbatim>\<open>subprocess.run\<close> has returned. The result is the exception
  that leaves the block, or the returned triple with the updated runner; the calls of
  \<^verbatim>\<open>subprocess.run\<close> are recorded beside it.
\<close>

definition the_call :: "runner \<Rightarrow> event_data \<Rightarrow> real \<Rightarrow> run_call" where
  "the_call self event_data timeout =
     \<lparr>rc_args = [hook_binary self], rc_input = json_data event_data, rc_timeout = timeout\<rparr>"

definition send_event_try ::
  "(run_call \<Rightarrow> proc_outcome) \<Rightarrow> real \<Rightarrow> real \<Rightarrow> runner \<Rightarrow> event_data \<Rightarrow> real
     \<Rightarrow> (exc + (bool \<times> real \<times> string) \<times> runner) \<times> run_call list" where
  "send_event_try run t0 t1 self event_data timeout =
     (let call = the_call self event_data timeout; res = results self in
      (case run call of
         TimeoutExpired \<Rightarrow> Inl TimeoutExpiredExc
       | Raised msg \<Rightarrow> Inl (OtherException msg)
       | Completed returncode out err \<Rightarrow>
           (let latency = (t1 - t0) * 1000 in
            if returncode = 0 then
              Inr ((True, latency, out),
                   self\<lparr>results := res\<lparr>events_processed := events_processed res + 1,
                                          latencies := latencies res @ [latency]\<rparr>\<rparr>)
            else
              Inr ((False, latency, err),
                   self\<lparr>results := res\<lparr>errors := errors res + 1\<rparr>\<rparr>)),
       [call]))"

text \<open>\<^verbatim>\<open>send_event\<close>: the \<^verbatim>\<open>try\<close> block with its two handlers.\<close>

definition send_event ::
  "(run_call \<Rightarrow> proc_outcome) \<Rightarrow> real \<Rightarrow> real \<Rightarrow> runner \<Rightarrow> event_data \<Rightarrow> real
     \<Rightarrow> (bool \<times> real \<times> string) \<times> runner \<times> run_call list" where
  "send_event run t0 t1 self event_data timeout =
     (case send_event_try run t0 t1 self event_data timeout of
        (Inr (r, self'), calls) \<Rightarrow> (r, self', calls)
      | (Inl TimeoutExpiredExc, calls) \<Rightarrow>
          ((False, timeout * 1000, ''Process timed out''),
           self\<lparr>results := (results self)\<lparr>timeouts := timeouts (results self) + 1\<rparr>\<rparr>, calls)
      | (Inl (OtherException e), calls) \<Rightarrow>
          ((False, 0, e),
           self\<lparr>results := (results self)\<lparr>errors := errors (results self) + 1\<rparr>\<rparr>, calls))"

text \<open>A sequence of calls of \<^verbatim>\<open>send_event\<close> on one runner, each with its own environment.\<close>

record send_env =
  se_run :: "run_call \<Rightarrow> proc_outcome"
  se_t0 :: real
  se_t1 :: real
  se_data :: event_data
  se_timeout :: real

fun send_events :: "runner \<Rightarrow> send_env list \<Rightarrow> runner" where
  "send_events self [] = self"
| "send_events self (e # es) =
     send_events (fst (snd (send_event (se_run e) (se_t0 e) (se_t1 e) self (se_data e) (se_timeout e)))) es"

definition latency_invariant :: "results \<Rightarrow> bool" where
  "latency_invariant r = (int (length (latencies r)) = events_processed r)"

subsection \<open>What the harness prints\<close>

text \<open>
  One constructor for each \<^verbatim>\<open>print\<close> of the functions below, with the interpolated
  values: \<open>EventFailed s\<close> is the line \<^verbatim>\<open>Event failed: {output[:100]}\<close> (the warning
  of the performance test), \<open>FailedAsExpected s\<close> is \<^verbatim>\<open>Failed as expected: {output[:50]}\<close>,
  \<open>SessionEventFailed sid i s\<close> is \<^verbatim>\<open>Session {session_id} event {i} failed: {output[:50]}\<close>.
\<close>

datatype message =
    EventFailed string
  | StartingErrorInjection
  | Testing string
  | ExpectedFailureButGotSuccess
  | FailedAsExpected string
  | ErrorInjectionCompleted
  | StartingConcurrentSessions
  | Sessions nat
  | EventsPerSession nat
  | SessionEventFailed string nat string
  | ConcurrentSessionsCompleted
  | StartingPerformance
  | DurationSetting real
  | TargetRate real
  | ExpectedTotal real
  | PerformanceCompleted
  | NoSuccessfulEvents
  | SummaryHeader
  | Duration real
  | EventsProcessed int
  | Errors int
  | Timeouts int
  | AverageLatency real
  | P95Latency real
  | Throughput real
  | AssessmentHeader
  | ExcellentAverage real
  | GoodAverage real
  | HighAverage real
  | GoodP95 real
  | HighP95 real

subsection \<open>\<^verbatim>\<open>error_injection_test\<close>\<close>






subsection \<open>\<^verbatim>\<open>concurrent_sessions_test\<close>\<close>






definition default_num_sessions :: nat where
  "default_num_sessions = 8"

definition default_events_per_session :: nat where
  "default_events_per_session = 10"




text \<open>Three calls in a row: one accepted, one rejected, one timed out.\<close>

definition example_sends :: "send_env list" where
  "example_sends =
     [\<lparr>se_run = (\<lambda>c. Completed 0 ''ok'' []), se_t0 = 10, se_t1 = 12, se_data = Str ''{}'', se_timeout = 5\<rparr>,
      \<lparr>se_run = (\<lambda>c. Completed 1 [] ''validation failed''), se_t0 = 13, se_t1 = 14, se_data = Str [], se_timeout = 5\<rparr>,
      \<lparr>se_run = (\<lambda>c. TimeoutExpired), se_t0 = 15, se_t1 = 20, se_data = Str ''{}'', se_timeout = 5\<rparr>]"

text \<open>A non-empty string of decimal digits.\<close>

definition numeric :: "string \<Rightarrow> bool" where
  "numeric s = (s \<noteq> [] \<and> list_all is_digit s)"

text \<open>Some draws, for examples.\<close>

definition example_draws :: draws where
  "example_draws = \<lparr>d_session = 23456, d_type = 7, d_model = 4, d_prompt = 90, d_attach = 1,
                     d_msg = 11, d_notif = 3\<rparr>"

subsection \<open>JSON texts\<close>

text \<open>
  What a syntactically valid JSON text is (RFC 8259): a value between optional white
  space, where a value is a string, a number, \<^verbatim>\<open>true\<close>, \<^verbatim>\<open>false\<close>, \<^verbatim>\<open>null\<close>, an object
  or an array. \<open>json_chars\<close> is what may stand between the quotes of a string.
\<close>

definition is_hex :: "char \<Rightarrow> bool" where
  "is_hex c = (c \<in> set ''0123456789abcdefABCDEF'')"

definition json_ws :: "string \<Rightarrow> bool" where
  "json_ws w = (set w \<subseteq> {CHR 0x20, CHR 0x09, CHR 0x0A, CHR 0x0D})"

inductive json_chars :: "string \<Rightarrow> bool" where
  chars_Nil: "json_chars []"
| chars_plain: "0x20 \<le> (of_char c :: nat) \<Longrightarrow> c \<noteq> CHR 0x22 \<Longrightarrow> c \<noteq> CHR 0x5C \<Longrightarrow> json_chars s
     \<Longrightarrow> json_chars (c # s)"
| chars_escape: "e \<in> set [CHR 0x22, CHR 0x5C, CHR ''/'', CHR ''b'', CHR ''f'', CHR ''n'', CHR ''r'', CHR ''t'']
     \<Longrightarrow> json_chars s \<Longrightarrow> json_chars (CHR 0x5C # e # s)"
| chars_unicode: "is_hex a \<Longrightarrow> is_hex b \<Longrightarrow> is_hex c \<Longrightarrow> is_hex d \<Longrightarrow> json_chars s
     \<Longrightarrow> json_chars (CHR 0x5C # CHR ''u'' # a # b # c # d # s)"

definition json_number :: "string \<Rightarrow> bool" where
  "json_number s =
     (\<exists>sign ip fr ex. s = sign @ ip @ fr @ ex
        \<and> (sign = [] \<or> sign = ''-'')
        \<and> numeric ip \<and> (1 < length ip \<longrightarrow> hd ip \<noteq> CHR ''0'')
        \<and> (fr = [] \<or> (\<exists>ds. fr = CHR ''.'' # ds \<and> numeric ds))
        \<and> (ex = [] \<or> (\<exists>e sg ds. ex = e # sg @ ds \<and> (e = CHR ''e'' \<or> e = CHR ''E'')
                             \<and> (sg = [] \<or> sg = ''+'' \<or> sg = ''-'') \<and> numeric ds)))"

inductive json_value :: "string \<Rightarrow> bool"
  and json_members :: "string \<Rightarrow> bool"
  and json_elements :: "string \<Rightarrow> bool" where
  value_string: "json_chars s \<Longrightarrow> json_value (CHR 0x22 # s @ [CHR 0x22])"
| value_number: "json_number s \<Longrightarrow> json_value s"
| value_true: "json_value ''true''"
| value_false: "json_value ''false''"
| value_null: "json_value ''null''"
| value_empty_object: "json_ws w \<Longrightarrow> json_value (CHR ''{'' # w @ ''}'')"
| value_object: "json_members m \<Longrightarrow> json_value (CHR ''{'' # m @ ''}'')"
| value_empty_array: "json_ws w \<Longrightarrow> json_value (CHR ''['' # w @ '']'')"
| value_array: "json_elements m \<Longrightarrow> json_value (CHR ''['' # m @ '']'')"
| member: "json_ws w1 \<Longrightarrow> json_chars k \<Longrightarrow> json_ws w2 \<Longrightarrow> json_ws w3 \<Longrightarrow> json_value v \<Longrightarrow> json_ws w4
     \<Longrightarrow> json_members (w1 @ CHR 0x22 # k @ CHR 0x22 # w2 @ CHR '':'' # w3 @ v @ w4)"
| members: "json_ws w1 \<Longrightarrow> json_chars k \<Longrightarrow> json_ws w2 \<Longrightarrow> json_ws w3 \<Longrightarrow> json_value v \<Longrightarrow> json_ws w4
     \<Longrightarrow> json_members m
     \<Longrightarrow> json_members (w1 @ CHR 0x22 # k @ CHR 0x22 # w2 @ CHR '':'' # w3 @ v @ w4 @ CHR '','' # m)"
| element: "json_ws w1 \<Longrightarrow> json_value v \<Longrightarrow> json_ws w2 \<Longrightarrow> json_elements (w1 @ v @ w2)"
| elements: "json_ws w1 \<Longrightarrow> json_value v \<Longrightarrow> json_ws w2 \<Longrightarrow> json_elements m
     \<Longrightarrow> json_elements (w1 @ v @ w2 @ CHR '','' # m)"

definition json_text :: "string \<Rightarrow> bool" where
  "json_text s = (\<exists>w1 v w2. s = w1 @ v @ w2 \<and> json_ws w1 \<and> json_value v \<and> json_ws w2)"




subsection \<open>\<^verbatim>\<open>performance_stress_test\<close>\<close>

definition session_pool :: "string list" where
  "session_pool = map (\<lambda>i. ''sess_perf_'' @ str_nat i) [0..<8]"

text \<open>
  What one iteration of a sender meets: the draw of \<^verbatim>\<open>random.choice(session_pool)\<close>,
  the draws of \<^verbatim>\<open>generate_event\<close>, the receiver, and the time \<^verbatim>\<open>subprocess.run\<close>
  takes, in microseconds.
\<close>

record sender_io =
  s_choice :: nat
  s_draws :: draws
  s_run :: "run_call \<Rightarrow> proc_outcome"
  s_elapsed :: nat

definition seconds :: "nat \<Rightarrow> real" where
  "seconds us = real us / 1000000"

text \<open>The body of the \<^verbatim>\<open>while\<close> loop of \<^verbatim>\<open>event_sender\<close> up to the sleep, at clock \<open>now\<close>.\<close>

definition event_sender_body ::
  "sender_io \<Rightarrow> string option \<Rightarrow> real \<Rightarrow> runner \<Rightarrow> message list \<times> runner \<times> run_call list" where
  "event_sender_body e user now self =
     (let session_id = random_choice (s_choice e) session_pool;
          event = generate_event (s_draws e) now user (Some session_id) None
      in case send_event (s_run e) now (now + seconds (s_elapsed e)) self (Dict event)
                default_timeout of
           ((success, latency, output), self', calls) \<Rightarrow>
             ((if \<not> success \<and> \<not> py_in ''validation failed'' output
               then [EventFailed (take 100 output)] else []),
              self', calls))"

text \<open>
  \<^verbatim>\<open>event_sender\<close>, one sender thread: \<open>k\<close> counts its iterations and \<open>now\<close> is its
  clock. An iteration takes the time of the subprocess and then sleeps for
  \<^verbatim>\<open>1.0 / events_per_second\<close> seconds. With \<^verbatim>\<open>events_per_second\<close> zero the division
  raises, with a negative one \<^verbatim>\<open>time.sleep\<close> raises: the thread ends after its first
  submission. The flag \<^verbatim>\<open>self.running\<close> is read from the runner; the main thread
  clears it only after the end time. The result holds the lines printed, the runner, and
  every call of \<^verbatim>\<open>subprocess.run\<close> with the time it was made at.
\<close>

function event_sender ::
  "(nat \<Rightarrow> sender_io) \<Rightarrow> string option \<Rightarrow> real \<Rightarrow> real \<Rightarrow> nat \<Rightarrow> real \<Rightarrow> runner
     \<Rightarrow> message list \<times> runner \<times> (real \<times> run_call) list" where
  "event_sender env user end_time' events_per_second k now self =
     (if now < end_time' \<and> running self then
        (let r = event_sender_body (env k) user now self in
         if events_per_second \<le> 0 then
           (fst r, fst (snd r), map (Pair now) (snd (snd r)))
         else
           (let r' = event_sender env user end_time' events_per_second (Suc k)
                       (now + seconds (s_elapsed (env k)) + 1 / events_per_second)
                       (fst (snd r))
            in (fst r @ fst r', fst (snd r'), map (Pair now) (snd (snd r)) @ snd (snd r'))))
      else ([], self, []))"
  by pat_completeness auto
termination
proof (relation "measure (\<lambda>(env, user, end_time', events_per_second, k, now, self).
                   nat \<lceil>(end_time' - now) * events_per_second\<rceil>)")
  show "wf (measure (\<lambda>(env, user, end_time', events_per_second, k, now, self).
                   nat \<lceil>(end_time' - now) * events_per_second\<rceil>))"
    by simp
next
  fix env :: "nat \<Rightarrow> sender_io" and user :: "string option"
    and end_time' events_per_second now :: real and k :: nat and self :: runner
    and r :: "message list \<times> runner \<times> run_call list"
  assume a: "now < end_time' \<and> running self" and e: "\<not> events_per_second \<le> 0"
  let ?d = "seconds (s_elapsed (env k))"
  have d: "0 \<le> ?d" by (simp add: seconds_def)
  from e have pos: "0 < events_per_second" by simp
  from a pos have x: "0 < (end_time' - now) * events_per_second" by simp
  have "(end_time' - (now + ?d + 1 / events_per_second)) * events_per_second
          = (end_time' - now) * events_per_second - ?d * events_per_second - 1"
    using pos by (simp add: algebra_simps)
  also have "\<dots> \<le> (end_time' - now) * events_per_second - 1"
    using d pos by simp
  finally have "\<lceil>(end_time' - (now + ?d + 1 / events_per_second)) * events_per_second\<rceil>
                  \<le> \<lceil>(end_time' - now) * events_per_second - 1\<rceil>"
    by (rule ceiling_mono)
  also have "\<dots> = \<lceil>(end_time' - now) * events_per_second\<rceil> - 1" by simp
  finally have "\<lceil>(end_time' - (now + ?d + 1 / events_per_second)) * events_per_second\<rceil>
                  < \<lceil>(end_time' - now) * events_per_second\<rceil>"
    by simp
  moreover from x have "0 < \<lceil>(end_time' - now) * events_per_second\<rceil>" by simp
  ultimately show "((env, user, end_time', events_per_second, Suc k,
                     now + ?d + 1 / events_per_second, fst (snd r)),
                    (env, user, end_time', events_per_second, k, now, self))
                  \<in> measure (\<lambda>(env, user, end_time', events_per_second, k, now, self).
                       nat \<lceil>(end_time' - now) * events_per_second\<rceil>)"
    by simp
qed

declare event_sender.simps [simp del]

text \<open>
  The test: it announces the duration, the target rate and the expected total, notes the
  start time, and submits \<^verbatim>\<open>event_sender\<close> three times to an executor of three
  threads, so three senders run from the start; sender \<open>t\<close> meets the environment
  \<open>env t\<close>. The model keeps the announcement and, for each sender, the lines it prints
  and the calls it makes. (The progress lines of the main thread read the counters
  while the senders change them; they are left out, as are the final counters.)
\<close>

definition performance_stress_test ::
  "(nat \<Rightarrow> nat \<Rightarrow> sender_io) \<Rightarrow> string option \<Rightarrow> real \<Rightarrow> runner \<Rightarrow> real \<Rightarrow> real
     \<Rightarrow> message list \<times> (message list \<times> (real \<times> run_call) list) list" where
  "performance_stress_test env user now self duration_seconds events_per_second =
     (let self1 = self\<lparr>results := (results self)\<lparr>start_time := Some now\<rparr>\<rparr>;
          end_time' = now + duration_seconds
      in ([StartingPerformance, DurationSetting duration_seconds, TargetRate events_per_second,
           ExpectedTotal (duration_seconds * events_per_second)],
          map (\<lambda>t. let r = event_sender (env t) user end_time' events_per_second 0 now self1
                    in (fst r, snd (snd r)))
            [0..<3]))"

text \<open>The tests \<^verbatim>\<open>run_full_test_suite\<close> runs, in order, with the arguments it passes.\<close>

datatype test_call =
    ErrorInjectionTest
  | ConcurrentSessionsTest nat nat
  | PerformanceStressTest real real
  | ResourceMonitoringTest real
  | LogRotationTest

definition run_full_test_suite :: "test_call list" where
  "run_full_test_suite =
     [ErrorInjectionTest,
      ConcurrentSessionsTest default_num_sessions default_events_per_session,
      PerformanceStressTest 30 10,
      ResourceMonitoringTest 20,
      LogRotationTest]"

text \<open>A receiver that accepts every event after 20 milliseconds.\<close>

definition steady_env :: "nat \<Rightarrow> nat \<Rightarrow> sender_io" where
  "steady_env t k = \<lparr>s_choice = t + k, s_draws = example_draws,
                      s_run = (\<lambda>c. Completed 0 ''ok'' []), s_elapsed = 20000\<rparr>"

subsection \<open>\<^verbatim>\<open>print_results\<close>\<close>

datatype py_error = TypeError | ZeroDivisionError | IndexError

text \<open>The index \<^verbatim>\<open>int(len(latencies) * 0.95)\<close>.\<close>

definition p95_index :: "nat \<Rightarrow> nat" where
  "p95_index n = nat (py_int (real n * (95 / 100)))"

text \<open>\<^verbatim>\<open>xs[i]\<close> for a non-negative index.\<close>

definition py_nth :: "'a list \<Rightarrow> nat \<Rightarrow> py_error + 'a" where
  "py_nth xs i = (if i < length xs then Inr (xs ! i) else Inl IndexError)"

definition py_div :: "real \<Rightarrow> real \<Rightarrow> py_error + real" where
  "py_div a b = (if b = 0 then Inl ZeroDivisionError else Inr (a / b))"

text \<open>
  \<^verbatim>\<open>end_time - start_time if end_time else 0\<close>: an end time of \<^verbatim>\<open>None\<close> or 0 is falsy;
  subtracting \<^verbatim>\<open>None\<close> from a number is a \<^verbatim>\<open>TypeError\<close>.
\<close>

definition duration_of :: "results \<Rightarrow> py_error + real" where
  "duration_of r =
     (case end_time r of
        None \<Rightarrow> Inr 0
      | Some e \<Rightarrow> if e = 0 then Inr 0
                  else (case start_time r of None \<Rightarrow> Inl TypeError | Some s \<Rightarrow> Inr (e - s)))"

definition assessment :: "real \<Rightarrow> real \<Rightarrow> message list" where
  "assessment avg_latency p95_latency =
     [AssessmentHeader,
      if avg_latency < 50 then ExcellentAverage avg_latency
      else if avg_latency < 200 then GoodAverage avg_latency
      else HighAverage avg_latency,
      if p95_latency < 200 then GoodP95 p95_latency else HighP95 p95_latency]"

definition print_results :: "runner \<Rightarrow> py_error + message list" where
  "print_results self =
     (let r = results self in
      if latencies r = [] then Inr [NoSuccessfulEvents]
      else
        (case duration_of r of
           Inl e \<Rightarrow> Inl e
         | Inr duration \<Rightarrow>
             (case py_div (sum_list (latencies r)) (real (length (latencies r))) of
                Inl e \<Rightarrow> Inl e
              | Inr avg_latency \<Rightarrow>
                  (case py_nth (sort (latencies r)) (p95_index (length (latencies r))) of
                     Inl e \<Rightarrow> Inl e
                   | Inr p95_latency \<Rightarrow>
                       Inr ([SummaryHeader, Duration duration,
                             EventsProcessed (events_processed r), Errors (errors r),
                             Timeouts (timeouts r), AverageLatency avg_latency,
                             P95Latency p95_latency]
                            @ (if 0 < duration
                               then [Throughput (real_of_int (events_processed r) / duration)]
                               else [])
                            @ assessment avg_latency p95_latency)))))"

text \<open>A runner after two accepted events and one rejected one, outside any timed test.\<close>

definition example_runner :: runner where
  "example_runner =
     \<lparr>hook_binary = ''hook'',
      results = \<lparr>events_processed = 2, errors = 1, timeouts = 0, latencies = [30, 12],
                 start_time = None, end_time = None\<rparr>,
      running = True\<rparr>"

text \<open>An iteration whose subprocess fails with the given text on standard error.\<close>

definition failing_sender :: "string \<Rightarrow> sender_io" where
  "failing_sender err = \<lparr>s_choice = 3, s_draws = example_draws,
                          s_run = (\<lambda>c. Completed 1 [] err), s_elapsed = 20000\<rparr>"


section \<open>Properties of \<^verbatim>\<open>send_event\<close>\<close>

lemma send_event_completed:
  assumes "run (the_call self ed tmo) = Completed returncode out err"
  shows "send_event run t0 t1 self ed tmo =
           (if returncode = 0 then
              ((True, (t1 - t0) * 1000, out),
               self\<lparr>results := (results self)\<lparr>events_processed := events_processed (results self) + 1,
                                  latencies := latencies (results self) @ [(t1 - t0) * 1000]\<rparr>\<rparr>,
               [the_call self ed tmo])
            else
              ((False, (t1 - t0) * 1000, err),
               self\<lparr>results := (results self)\<lparr>errors := errors (results self) + 1\<rparr>\<rparr>,
               [the_call self ed tmo]))"
  using assms by (simp add: send_event_def send_event_try_def Let_def)

lemma send_event_timeout:
  assumes "run (the_call self ed tmo) = TimeoutExpired"
  shows "send_event run t0 t1 self ed tmo =
           ((False, tmo * 1000, ''Process timed out''),
            self\<lparr>results := (results self)\<lparr>timeouts := timeouts (results self) + 1\<rparr>\<rparr>,
            [the_call self ed tmo])"
  using assms by (simp add: send_event_def send_event_try_def Let_def)

lemma send_event_raised:
  assumes "run (the_call self ed tmo) = Raised e"
  shows "send_event run t0 t1 self ed tmo =
           ((False, 0, e),
            self\<lparr>results := (results self)\<lparr>errors := errors (results self) + 1\<rparr>\<rparr>,
            [the_call self ed tmo])"
  using assms by (simp add: send_event_def send_event_try_def Let_def)

lemma send_event_calls:
  "snd (snd (send_event run t0 t1 self ed tmo)) = [the_call self ed tmo]"
  by (cases "run (the_call self ed tmo)")
     (simp_all add: send_event_completed send_event_timeout send_event_raised)





lemma send_event_cases:
  obtains (processed) out err where "run (the_call self ed tmo) = Completed 0 out err"
  | (failed) returncode out err where "returncode \<noteq> 0" "run (the_call self ed tmo) = Completed returncode out err"
  | (timeout) "run (the_call self ed tmo) = TimeoutExpired"
  | (raised) e where "run (the_call self ed tmo) = Raised e"
  by (cases "run (the_call self ed tmo)") auto



lemma send_event_invariant:
  "latency_invariant (results self) \<Longrightarrow>
   latency_invariant (results (fst (snd (send_event run t0 t1 self ed tmo))))"
  by (cases rule: send_event_cases [of run self ed tmo])
     (simp_all add: send_event_completed send_event_timeout send_event_raised latency_invariant_def)

lemma send_events_invariant:
  "latency_invariant (results self) \<Longrightarrow> latency_invariant (results (send_events self es))"
  by (induction es arbitrary: self) (simp_all add: send_event_invariant)

text \<open>
  Claim C9. Every call of \<^verbatim>\<open>send_event\<close> increments exactly one of
  \<^verbatim>\<open>events_processed\<close>, \<^verbatim>\<open>errors\<close> and \<^verbatim>\<open>timeouts\<close>, by one, and appends its
  latency exactly when it increments \<^verbatim>\<open>events_processed\<close>. So the number of latencies
  equals \<^verbatim>\<open>events_processed\<close> after the call if it did before; it does in the results
  \<^verbatim>\<open>__init__\<close> creates, and hence after any sequence of calls on a new runner.
\<close>

theorem send_event_counters:
  "(let r = results self; r' = results (fst (snd (send_event run t0 t1 self ed tmo))) in
      (events_processed r' = events_processed r + 1 \<and> errors r' = errors r
         \<and> timeouts r' = timeouts r
         \<and> latencies r' = latencies r @ [fst (snd (fst (send_event run t0 t1 self ed tmo)))]
       \<or> events_processed r' = events_processed r \<and> errors r' = errors r + 1
         \<and> timeouts r' = timeouts r \<and> latencies r' = latencies r
       \<or> events_processed r' = events_processed r \<and> errors r' = errors r
         \<and> timeouts r' = timeouts r + 1 \<and> latencies r' = latencies r)
      \<and> (latency_invariant r \<longrightarrow> latency_invariant r'))
   \<and> latency_invariant (results (init_runner b))
   \<and> latency_invariant (results (send_events (init_runner b) es))"
proof -
  have "latency_invariant (results (init_runner b))"
    by (simp add: latency_invariant_def init_runner_def init_results_def)
  moreover from this have "latency_invariant (results (send_events (init_runner b) es))"
    by (rule send_events_invariant)
  moreover have "let r = results self; r' = results (fst (snd (send_event run t0 t1 self ed tmo))) in
      (events_processed r' = events_processed r + 1 \<and> errors r' = errors r
         \<and> timeouts r' = timeouts r
         \<and> latencies r' = latencies r @ [fst (snd (fst (send_event run t0 t1 self ed tmo)))]
       \<or> events_processed r' = events_processed r \<and> errors r' = errors r + 1
         \<and> timeouts r' = timeouts r \<and> latencies r' = latencies r
       \<or> events_processed r' = events_processed r \<and> errors r' = errors r
         \<and> timeouts r' = timeouts r + 1 \<and> latencies r' = latencies r)
      \<and> (latency_invariant r \<longrightarrow> latency_invariant r')"
    by (cases rule: send_event_cases [of run self ed tmo])
       (simp_all add: send_event_completed send_event_timeout send_event_raised latency_invariant_def)
  ultimately show ?thesis by simp
qed

theorem send_event_counters_witness:
  "latency_invariant (results (init_runner ''hook''))
   \<and> latency_invariant (results (fst (snd (send_event (\<lambda>c. Completed 0 ''ok'' []) 10 12 (init_runner ''hook'') (Str ''{}'') 5))))
   \<and> results (send_events (init_runner ''hook'') example_sends) =
        \<lparr>events_processed = 1, errors = 1, timeouts = 1, latencies = [2000],
          start_time = None, end_time = None\<rparr>
   \<and> latency_invariant (results (send_events (init_runner ''hook'') example_sends))"
proof -
  have "results (send_events (init_runner ''hook'') example_sends) =
        \<lparr>events_processed = 1, errors = 1, timeouts = 1, latencies = [2000],
          start_time = None, end_time = None\<rparr>"
    by (simp add: example_sends_def send_event_def send_event_try_def init_runner_def init_results_def)
  then show ?thesis
    using send_event_counters [where self = "init_runner ''hook''" and run = "\<lambda>c. Completed 0 ''ok'' []"
      and ?t0.0 = 10 and ?t1.0 = 12 and ed = "Str ''{}''" and tmo = 5 and b = "''hook''" and es = example_sends]
    by (simp add: Let_def)
qed

section \<open>Generated events\<close>

lemma digit_char_numerals:
  "digit_char 0 = CHR ''0''" "digit_char 1 = CHR ''1''" "digit_char (Suc 0) = CHR ''1''"
  "digit_char 2 = CHR ''2''" "digit_char 3 = CHR ''3''" "digit_char 4 = CHR ''4''"
  "digit_char 5 = CHR ''5''" "digit_char 6 = CHR ''6''" "digit_char 7 = CHR ''7''"
  "digit_char 8 = CHR ''8''" "digit_char 9 = CHR ''9''"
  by code_simp+


lemma is_digit_digit_char: "n < 10 \<Longrightarrow> is_digit (digit_char n)"
  by (simp add: is_digit_def digit_char_def)

lemma str_nat_numeric: "numeric (str_nat n)"
proof (induction n rule: str_nat.induct)
  case (1 n)
  show ?case
  proof (cases "n < 10")
    case True
    then show ?thesis by (simp add: str_nat.simps [of n] numeric_def is_digit_digit_char)
  next
    case False
    with 1 show ?thesis
      by (simp add: str_nat.simps [of n] numeric_def is_digit_digit_char)
  qed
qed






lemma py_int_nonneg: "0 \<le> x \<Longrightarrow> 0 \<le> py_int x"
  by (simp add: py_int_def)




section \<open>\<^verbatim>\<open>json.dumps\<close> writes JSON\<close>

lemma json_chars_append: "json_chars a \<Longrightarrow> json_chars b \<Longrightarrow> json_chars (a @ b)"
  by (induction a rule: json_chars.induct) (auto intro: json_chars.intros)

lemma is_hex_hex_digit: "is_hex (hex_digit n)"
proof -
  have "n mod 16 < length ''0123456789abcdef''" by simp
  then have "''0123456789abcdef'' ! (n mod 16) \<in> set ''0123456789abcdef''"
    by (rule nth_mem)
  then show ?thesis unfolding is_hex_def hex_digit_def by auto
qed

lemma json_chars_escape_char: "json_chars (escape_char c)"
proof -
  have esc: "json_chars [CHR 0x5C, e]"
    if "e \<in> set [CHR 0x22, CHR 0x5C, CHR ''/'', CHR ''b'', CHR ''f'', CHR ''n'', CHR ''r'', CHR ''t'']" for e
    using that by (rule chars_escape [OF _ chars_Nil])
  have plain: "json_chars [c]"
    if "0x20 \<le> (of_char c :: nat)" "c \<noteq> CHR 0x22" "c \<noteq> CHR 0x5C"
    using that by (rule chars_plain [OF _ _ _ chars_Nil])
  have z: "is_hex CHR ''0''" by (simp add: is_hex_def)
  have uni: "json_chars [CHR 0x5C, CHR ''u'', CHR ''0'', CHR ''0'', hex_digit a, hex_digit b]" for a b
    by (intro chars_unicode chars_Nil z is_hex_hex_digit)
  show ?thesis
    unfolding escape_char_def by (simp add: esc plain uni)
qed

lemma json_chars_escaped: "json_chars (concat (map escape_char s))"
  by (induction s) (auto intro: chars_Nil json_chars_append json_chars_escape_char)

lemma json_value_encode: "json_value (encode_basestring_ascii s)"
  using value_string [OF json_chars_escaped [of s]] by (simp add: encode_basestring_ascii_def)

lemma str_nat_nonempty: "str_nat n \<noteq> []"
  using str_nat_numeric [of n] by (simp add: numeric_def)

lemma digit_char_zero_iff: "n < 10 \<Longrightarrow> digit_char n = CHR ''0'' \<longleftrightarrow> n = 0"
proof -
  assume "n < 10"
  then have "(of_char (digit_char n) :: nat) = 48 + n" by (simp add: digit_char_def)
  moreover have "(of_char CHR ''0'' :: nat) = 48" by simp
  ultimately show ?thesis by (metis add_cancel_right_right digit_char_numerals(1))
qed

lemma str_nat_no_leading_zero: "n \<noteq> 0 \<Longrightarrow> hd (str_nat n) \<noteq> CHR ''0''"
proof (induction n rule: str_nat.induct)
  case (1 n)
  show ?case
  proof (cases "n < 10")
    case True
    with 1(2) show ?thesis by (simp add: str_nat.simps [of n] digit_char_zero_iff)
  next
    case False
    then have "n div 10 \<noteq> 0" by simp
    with 1 False have "hd (str_nat (n div 10)) \<noteq> CHR ''0''" by simp
    with False show ?thesis by (simp add: str_nat.simps [of n] str_nat_nonempty)
  qed
qed

lemma str_nat_length_one: "n < 10 \<Longrightarrow> length (str_nat n) = 1"
  by (simp add: str_nat.simps [of n])

lemma json_number_str_int: "json_number (str_int i)"
proof -
  let ?n = "if i < 0 then nat (- i) else nat i"
  have lead: "1 < length (str_nat ?n) \<longrightarrow> hd (str_nat ?n) \<noteq> CHR ''0''"
    using str_nat_no_leading_zero [of ?n] str_nat_length_one [of ?n] by (cases "?n = 0") auto
  have "str_int i = (if i < 0 then ''-'' else []) @ str_nat ?n @ [] @ []"
    by (simp add: str_int_def)
  moreover have "numeric (str_nat ?n)" by (rule str_nat_numeric)
  ultimately show ?thesis
    unfolding json_number_def using lead
    by (intro exI [of _ "if i < 0 then ''-'' else []"] exI [of _ "str_nat ?n"] exI [of _ "[]"]) auto
qed

lemma json_ws_simps: "json_ws []" "json_ws '' ''"
  by (simp_all add: json_ws_def)

lemma dumps_valid:
  "json_value (dumps v)"
  "kvs \<noteq> [] \<Longrightarrow> json_ws w \<Longrightarrow> json_members (w @ dumps_items kvs)"
proof (induction v and kvs arbitrary: and w rule: dumps_dumps_items.induct)
  case (1 s)
  show ?case by (simp add: json_value_encode)
next
  case (2 i)
  show ?case by (simp add: value_number json_number_str_int)
next
  case (3 b)
  show ?case by (simp add: value_true value_false)
next
  case (4 kvs)
  show ?case
  proof (cases "kvs = []")
    case True
    then show ?thesis using value_empty_object [of "[]"] by (simp add: json_ws_simps)
  next
    case False
    with 4 [of "[]"] have "json_members (dumps_items kvs)" by (simp add: json_ws_simps)
    then show ?thesis using value_object by simp
  qed
next
  case 5
  then show ?case by simp
next
  case (6 k v)
  have "json_members (w @ CHR 0x22 # concat (map escape_char k) @ CHR 0x22 # [] @ CHR '':'' # '' '' @ dumps v @ [])"
    using 6 by (intro member json_chars_escaped) (simp_all add: json_ws_simps)
  then show ?case by (simp add: encode_basestring_ascii_def)
next
  case (7 k v kv kvs)
  have "json_members ('' '' @ dumps_items (kv # kvs))"
    by (rule "7.IH"(2)) (simp_all add: json_ws_simps)
  with 7 have "json_members (w @ CHR 0x22 # concat (map escape_char k) @ CHR 0x22 # [] @ CHR '':'' # '' '' @ dumps v @ []
                    @ CHR '','' # ('' '' @ dumps_items (kv # kvs)))"
    by (intro members json_chars_escaped) (simp_all add: json_ws_simps)
  then show ?case by (simp add: encode_basestring_ascii_def)
qed

lemma dumps_json_text: "json_text (dumps v)"
  unfolding json_text_def using dumps_valid(1) [of v] json_ws_simps(1)
  by (intro exI [of _ "[]"] exI [of _ "dumps v"]) simp


lemma is_digit_not_brace: "is_digit c \<Longrightarrow> c \<noteq> CHR ''{''"
  by (auto simp add: is_digit_def)

lemma json_number_hd: "json_number s \<Longrightarrow> s \<noteq> [] \<and> hd s \<noteq> CHR ''{''"
  by (auto simp add: json_number_def numeric_def hd_append list_all_iff is_digit_not_brace)

lemma json_value_braces:
  "json_value s \<Longrightarrow> s \<noteq> [] \<and> (hd s = CHR ''{'' \<longrightarrow> last s = CHR ''}'')"
  by (induction s rule: json_value_json_members_json_elements.inducts(1)
        [where ?P2.0 = "\<lambda>_. True" and ?P3.0 = "\<lambda>_. True"])
     (simp_all add: json_number_hd)

lemma json_text_braces:
  assumes "json_text s" "hd s = CHR ''{''"
  shows "last s \<in> {CHR ''}'', CHR 0x20, CHR 0x09, CHR 0x0A, CHR 0x0D}"
proof -
  from assms(1) obtain w1 v w2 where s: "s = w1 @ v @ w2" and w1: "json_ws w1"
    and v: "json_value v" and w2: "json_ws w2"
    by (auto simp add: json_text_def)
  from v have v': "v \<noteq> []" "hd v = CHR ''{'' \<longrightarrow> last v = CHR ''}''"
    using json_value_braces by blast+
  have "w1 = []"
  proof (rule ccontr)
    assume "w1 \<noteq> []"
    then have "hd s \<in> set w1" by (simp add: s)
    with w1 assms(2) show False by (auto simp add: json_ws_def)
  qed
  with s assms(2) v' have lv: "last v = CHR ''}''" by simp
  show ?thesis
  proof (cases "w2 = []")
    case True
    with s \<open>w1 = []\<close> lv show ?thesis by simp
  next
    case False
    then have "last s \<in> set w2" by (simp add: s)
    with w2 show ?thesis by (auto simp add: json_ws_def)
  qed
qed

lemma truncated_not_json: \<open>\<not> json_text ''{"invalid": "json"''\<close>
proof
  assume \<open>json_text ''{"invalid": "json"''\<close>
  from json_text_braces [OF this] show False by simp
qed

section \<open>The malformed events\<close>

lemma escape_char_plain:
  "0x20 \<le> (of_char c :: nat) \<Longrightarrow> (of_char c :: nat) \<le> 0x7E \<Longrightarrow> c \<noteq> CHR 0x22 \<Longrightarrow> c \<noteq> CHR 0x5C
   \<Longrightarrow> escape_char c = [c]"
  by (auto simp add: escape_char_def)

lemma concat_replicate_single: "concat (replicate n [x]) = replicate n x"
  by (induction n) simp_all

lemma encode_replicate_plain:
  assumes "escape_char c = [c]"
  shows "encode_basestring_ascii (replicate n c) = CHR 0x22 # replicate n c @ [CHR 0x22]"
  using assms by (simp add: encode_basestring_ascii_def concat_replicate_single)

lemma oversized_session_event:
  \<open>dumps (JObj [(''hook_event_name'', JStr ''SessionStart''),
                (''session_id'', JStr (replicate 600000 CHR ''x''))]) =
   ''{"hook_event_name": "SessionStart", "session_id": "'' @ replicate 600000 CHR ''x'' @ ''"}''\<close>
proof -
  have x: "escape_char CHR ''x'' = [CHR ''x'']" by (simp add: escape_char_def)
  have k1: \<open>encode_basestring_ascii ''hook_event_name'' = ''"hook_event_name"''\<close>
    by (simp add: encode_basestring_ascii_def escape_char_def)
  have k2: \<open>encode_basestring_ascii ''session_id'' = ''"session_id"''\<close>
    by (simp add: encode_basestring_ascii_def escape_char_def)
  have v1: \<open>encode_basestring_ascii ''SessionStart'' = ''"SessionStart"''\<close>
    by (simp add: encode_basestring_ascii_def escape_char_def)
  show ?thesis
    by (simp add: k1 k2 v1 encode_replicate_plain [OF x])
qed


lemma malformed_types_eq:
  \<open>malformed_types =
     [''{"invalid": "json"'',
      ''{"hook_event_name": "InvalidEvent"}'',
      ''{"session_id": ""}'',
      ''{"hook_event_name": "SessionStart", "session_id": "'' @ replicate 600000 CHR ''x'' @ ''"}'',
      ''{}'']\<close>
  unfolding malformed_types_def oversized_session_event by (rule refl)

lemma generate_malformed_event_cases:
  "generate_malformed_event r = malformed_types ! (r mod 5)"
  unfolding generate_malformed_event_def random_choice_def malformed_types_eq by simp


text \<open>
  Claim C7. Whatever the draw, \<^verbatim>\<open>generate_malformed_event\<close> returns one of five fixed
  strings, and each of the five is returned for some draw: a truncated text (which is
  not JSON), an object with the unknown event type \<^verbatim>\<open>InvalidEvent\<close>, an object with an
  empty \<^verbatim>\<open>session_id\<close>, the serialised event whose \<^verbatim>\<open>session_id\<close> is the letter
  \<^verbatim>\<open>x\<close> 600000 times, and the empty object. The fourth is a syntactically valid JSON
  text.
\<close>

theorem generate_malformed_event_shapes:
  \<open>generate_malformed_event r \<in>
     {''{"invalid": "json"'',
      ''{"hook_event_name": "InvalidEvent"}'',
      ''{"session_id": ""}'',
      ''{"hook_event_name": "SessionStart", "session_id": "'' @ replicate 600000 CHR ''x'' @ ''"}'',
      ''{}''}
   \<and> map generate_malformed_event [0, 1, 2, 3, 4] = malformed_types
   \<and> generate_malformed_event 3 =
       dumps (JObj [(''hook_event_name'', JStr ''SessionStart''),
                    (''session_id'', JStr (replicate 600000 CHR ''x''))])
   \<and> generate_malformed_event 3 =
       ''{"hook_event_name": "SessionStart", "session_id": "'' @ replicate 600000 CHR ''x'' @ ''"}''
   \<and> json_text (generate_malformed_event 3)
   \<and> length (replicate 600000 CHR ''x'') = 600000
   \<and> \<not> json_text (generate_malformed_event 0)\<close>
proof -
  have len: "length malformed_types = 5" by (simp add: malformed_types_def)
  have "r mod 5 < length malformed_types" by (simp add: len)
  then have "malformed_types ! (r mod 5) \<in> set malformed_types" by (rule nth_mem)
  then have mem: \<open>generate_malformed_event r \<in>
     {''{"invalid": "json"'',
      ''{"hook_event_name": "InvalidEvent"}'',
      ''{"session_id": ""}'',
      ''{"hook_event_name": "SessionStart", "session_id": "'' @ replicate 600000 CHR ''x'' @ ''"}'',
      ''{}''}\<close>
    unfolding generate_malformed_event_cases unfolding malformed_types_eq by simp
  have all: "map generate_malformed_event [0, 1, 2, 3, 4] = malformed_types"
    unfolding generate_malformed_event_cases unfolding malformed_types_eq by simp
  have three: "generate_malformed_event 3 =
       dumps (JObj [(''hook_event_name'', JStr ''SessionStart''),
                    (''session_id'', JStr (replicate 600000 CHR ''x''))])"
    unfolding generate_malformed_event_cases unfolding malformed_types_def by simp
  have zero: \<open>generate_malformed_event 0 = ''{"invalid": "json"''\<close>
    unfolding generate_malformed_event_cases unfolding malformed_types_def by simp
  have valid: "json_text (generate_malformed_event 3)"
    unfolding three by (rule dumps_json_text)
  have trunc: "\<not> json_text (generate_malformed_event 0)"
    unfolding zero by (rule truncated_not_json)
  show ?thesis
    using mem all valid trunc three oversized_session_event by simp
qed


theorem generate_malformed_event_shapes_witness:
  \<open>generate_malformed_event 8 =
     ''{"hook_event_name": "SessionStart", "session_id": "'' @ replicate 600000 CHR ''x'' @ ''"}''
   \<and> json_text (generate_malformed_event 3)
   \<and> generate_malformed_event 4 = ''{}''\<close>
proof -
  note shapes = generate_malformed_event_shapes [of 8]
  have "generate_malformed_event 8 = malformed_types ! 3"
    and three: "generate_malformed_event 3 = malformed_types ! 3"
    unfolding generate_malformed_event_cases by simp_all
  then have same: "generate_malformed_event 8 = generate_malformed_event 3"
    by (simp only:)
  have a: \<open>generate_malformed_event 8 =
     ''{"hook_event_name": "SessionStart", "session_id": "'' @ replicate 600000 CHR ''x'' @ ''"}''\<close>
    unfolding same using shapes by (elim conjE)
  have b: "json_text (generate_malformed_event 3)"
    using shapes by (elim conjE)
  have c: "generate_malformed_event 4 = ''{}''"
    unfolding generate_malformed_event_cases malformed_types_eq by simp
  from a b c show ?thesis by (intro conjI)
qed

section \<open>The error-injection test\<close>












section \<open>The performance stress test\<close>

lemma py_in_sublist: "py_in needle haystack \<longleftrightarrow> sublist needle haystack"
  by (induction haystack) (simp_all add: sublist_Cons_right)

text \<open>
  Claim C2. In an iteration of a sender of the performance test, when the submission
  fails the warning \<^verbatim>\<open>Event failed: ...\<close> is printed if and only if the output of the
  failed call does not contain \<^verbatim>\<open>validation failed\<close>; a failure whose output contains
  it prints nothing, and neither does a success.
\<close>

theorem event_sender_warning:
  assumes "send_event (s_run e) now (now + seconds (s_elapsed e)) self
             (Dict (generate_event (s_draws e) now user
                      (Some (random_choice (s_choice e) session_pool)) None))
             default_timeout = ((success, latency, outp), self', calls)"
  shows "(\<not> success \<longrightarrow>
            (fst (event_sender_body e user now self) = [EventFailed (take 100 outp)]
               \<longleftrightarrow> \<not> (\<exists>pre suf. outp = pre @ ''validation failed'' @ suf))
          \<and> ((\<exists>pre suf. outp = pre @ ''validation failed'' @ suf)
               \<longrightarrow> fst (event_sender_body e user now self) = []))
       \<and> (success \<longrightarrow> fst (event_sender_body e user now self) = [])"
  using assms by (auto simp add: event_sender_body_def Let_def py_in_sublist sublist_def)

theorem event_sender_warning_witness:
  "fst (event_sender_body (failing_sender ''disk full'') None 100 (init_runner ''hook''))
     = [EventFailed ''disk full'']
   \<and> \<not> (\<exists>pre suf. ''disk full'' = pre @ ''validation failed'' @ suf)"
proof -
  let ?e = "failing_sender ''disk full''"
  let ?ev = "Dict (generate_event (s_draws ?e) 100 None
                      (Some (random_choice (s_choice ?e) session_pool)) None)"
  let ?self = "init_runner ''hook''"
  have run: "s_run ?e (the_call ?self ?ev default_timeout) = Completed 1 [] ''disk full''"
    by (simp add: failing_sender_def)
  have h: "send_event (s_run ?e) 100 (100 + seconds (s_elapsed ?e)) ?self ?ev default_timeout =
             ((False, (100 + seconds (s_elapsed ?e) - 100) * 1000, ''disk full''),
              ?self\<lparr>results := (results ?self)\<lparr>errors := errors (results ?self) + 1\<rparr>\<rparr>,
              [the_call ?self ?ev default_timeout])"
    using run by (simp add: send_event_completed)
  have no: "\<not> (\<exists>pre suf. ''disk full'' = pre @ ''validation failed'' @ suf)"
    using py_in_sublist [of "''validation failed''" "''disk full''"]
    by (simp add: sublist_def)
  from event_sender_warning [OF h] no show ?thesis by simp
qed

section \<open>The report\<close>

lemma p95_index_less: "1 \<le> n \<Longrightarrow> p95_index n < n"
proof -
  assume n: "1 \<le> n"
  have nn: "0 \<le> real n * (95 / 100)" by simp
  have "real n * (95 / 100) < real n" using n by simp
  then have "\<lfloor>real n * (95 / 100)\<rfloor> < int n" by (simp add: floor_less_iff)
  moreover have "0 \<le> \<lfloor>real n * (95 / 100)\<rfloor>" using nn by simp
  ultimately have "nat \<lfloor>real n * (95 / 100)\<rfloor> < n" by linarith
  then show ?thesis using nn by (simp add: p95_index_def py_int_def)
qed

lemma p95_index_rounded:
  assumes "1 \<le> n" "\<bar>\<delta>\<bar> \<le> 1 / 100"
  shows "nat (py_int (real n * (95 / 100) * (1 + \<delta>))) < n"
proof -
  let ?x = "real n * (95 / 100) * (1 + \<delta>)"
  from assms(2) have d: "0 \<le> 1 + \<delta>" "1 + \<delta> \<le> 101 / 100" by (simp_all add: abs_le_iff)
  then have nn: "0 \<le> ?x" by simp
  have "?x \<le> real n * (95 / 100) * (101 / 100)"
    using d by (intro mult_left_mono) simp_all
  also have "\<dots> < real n" using assms(1) by simp
  finally have "?x < real n" .
  then have "\<lfloor>?x\<rfloor> < int n" by (simp add: floor_less_iff)
  moreover have "0 \<le> \<lfloor>?x\<rfloor>" using nn by simp
  ultimately have "nat \<lfloor>?x\<rfloor> < n" by linarith
  then show ?thesis using nn by (simp add: py_int_def)
qed

text \<open>
  Claim C10. With no latencies \<^verbatim>\<open>print_results\<close> prints
  \<^verbatim>\<open>No successful events processed\<close> and nothing else. With \<open>n \<ge> 1\<close> latencies the
  index \<^verbatim>\<open>int(n * 0.95)\<close> is below \<open>n\<close> (also when the product is off by a relative
  rounding error of up to one percent), so neither the division by the number of
  latencies nor the indexing of the sorted list ever fails; and \<^verbatim>\<open>print_results\<close>
  prints its report whenever the end time is unset or the start time is set, which is so
  in every state the harness reaches.
\<close>

theorem print_results_safe:
  "(latencies (results self) = [] \<longrightarrow> print_results self = Inr [NoSuccessfulEvents])
   \<and> (1 \<le> n \<longrightarrow> p95_index n < n)
   \<and> (1 \<le> n \<and> \<bar>\<delta>\<bar> \<le> 1 / 100 \<longrightarrow> nat (py_int (real n * (95 / 100) * (1 + \<delta>))) < n)
   \<and> print_results self \<noteq> Inl ZeroDivisionError
   \<and> print_results self \<noteq> Inl IndexError
   \<and> (end_time (results self) = None \<or> end_time (results self) = Some 0
        \<or> start_time (results self) \<noteq> None \<longrightarrow> (\<exists>msgs. print_results self = Inr msgs))"
proof -
  have idx: "p95_index (length (latencies (results self))) < length (sort (latencies (results self)))"
    if "latencies (results self) \<noteq> []"
    using that p95_index_less [of "length (latencies (results self))"]
    by (cases "latencies (results self)") simp_all
  have dur: "duration_of (results self) = Inl e \<Longrightarrow> e = TypeError" for e
    by (auto simp add: duration_of_def split: option.splits if_splits)
  have dur_ok: "\<exists>d. duration_of (results self) = Inr d"
    if "end_time (results self) = None \<or> end_time (results self) = Some 0
        \<or> start_time (results self) \<noteq> None"
    using that by (auto simp add: duration_of_def split: option.splits)
  have a: "latencies (results self) = [] \<longrightarrow> print_results self = Inr [NoSuccessfulEvents]"
    by (simp add: print_results_def)
  have b: "print_results self \<noteq> Inl ZeroDivisionError"
    using idx dur
    by (auto simp add: print_results_def Let_def py_div_def py_nth_def split: sum.splits)
  have c: "print_results self \<noteq> Inl IndexError"
    using idx dur
    by (auto simp add: print_results_def Let_def py_div_def py_nth_def split: sum.splits)
  have d: "end_time (results self) = None \<or> end_time (results self) = Some 0
        \<or> start_time (results self) \<noteq> None \<longrightarrow> (\<exists>msgs. print_results self = Inr msgs)"
  proof
    assume "end_time (results self) = None \<or> end_time (results self) = Some 0
        \<or> start_time (results self) \<noteq> None"
    from dur_ok [OF this] obtain dd where "duration_of (results self) = Inr dd" ..
    then show "\<exists>msgs. print_results self = Inr msgs"
      using idx by (simp add: print_results_def Let_def py_div_def py_nth_def)
  qed
  from a b c d p95_index_less p95_index_rounded show ?thesis by blast
qed

theorem print_results_safe_witness:
  "print_results (init_runner ''hook'') = Inr [NoSuccessfulEvents]
   \<and> p95_index 20 < 20
   \<and> (\<exists>msgs. print_results example_runner = Inr msgs)"
proof -
  have a: "print_results (init_runner ''hook'') = Inr [NoSuccessfulEvents]"
    using print_results_safe [of "init_runner ''hook''" 20 0]
    by (simp add: init_runner_def init_results_def)
  have b: "p95_index 20 < 20"
    using print_results_safe [of "init_runner ''hook''" 20 0] by simp
  have c: "\<exists>msgs. print_results example_runner = Inr msgs"
    using print_results_safe [of example_runner 20 0] by (simp add: example_runner_def)
  from a b c show ?thesis by (intro conjI)
qed

lemma print_results_example:
  "print_results example_runner =
     Inr [SummaryHeader, Duration 0, EventsProcessed 2, Errors 1, Timeouts 0,
          AverageLatency 21, P95Latency 30, AssessmentHeader, ExcellentAverage 21, GoodP95 30]"
  by (simp add: print_results_def example_runner_def duration_of_def py_div_def py_nth_def
        p95_index_def py_int_def assessment_def)

section \<open>The rate of the senders\<close>

lemma send_event_running:
  "running (fst (snd (send_event run t0 t1 self ed tmo))) = running self"
  by (cases "run (the_call self ed tmo)")
     (simp_all add: send_event_completed send_event_timeout send_event_raised)

lemma event_sender_body_calls:
  "snd (snd (event_sender_body e user now self)) =
     [the_call self (Dict (generate_event (s_draws e) now user
                            (Some (random_choice (s_choice e) session_pool)) None))
        default_timeout]"
  using send_event_calls [of "s_run e" now "now + seconds (s_elapsed e)" self
          "Dict (generate_event (s_draws e) now user
                            (Some (random_choice (s_choice e) session_pool)) None)" default_timeout]
  by (auto simp add: event_sender_body_def Let_def split: prod.splits)

lemma event_sender_body_running:
  "running (fst (snd (event_sender_body e user now self))) = running self"
  using send_event_running [of "s_run e" now "now + seconds (s_elapsed e)" self
          "Dict (generate_event (s_draws e) now user
                            (Some (random_choice (s_choice e) session_pool)) None)" default_timeout]
  by (auto simp add: event_sender_body_def Let_def split: prod.splits)

lemma event_sender_times:
  assumes "\<forall>k. s_elapsed (env k) = us" "0 < events_per_second" "running self"
  shows "map fst (snd (snd (event_sender env user end_time' events_per_second k now self))) =
           map (\<lambda>i. now + real i * (seconds us + 1 / events_per_second))
             [0..<nat \<lceil>(end_time' - now) / (seconds us + 1 / events_per_second)\<rceil>]"
  using assms
proof (induction env user end_time' events_per_second k now self rule: event_sender.induct)
  case (1 env user end_time' events_per_second k now self)
  let ?p = "seconds us + 1 / events_per_second"
  note eps = "1.prems"(2)
  have "0 \<le> seconds us" by (simp add: seconds_def)
  moreover have "0 < 1 / events_per_second" using eps by simp
  ultimately have p: "0 < ?p" by (rule add_nonneg_pos)
  show ?case
  proof (cases "now < end_time'")
    case False
    then have "(end_time' - now) / ?p \<le> 0" using p by (simp add: divide_nonpos_pos)
    then have "\<lceil>(end_time' - now) / ?p\<rceil> \<le> 0" by (simp add: ceiling_le_iff)
    with False show ?thesis
      by (simp add: event_sender.simps [of env user end_time' events_per_second k now self])
  next
    case True
    let ?r = "event_sender_body (env k) user now self"
    let ?N = "nat \<lceil>(end_time' - now) / ?p\<rceil>"
    have run': "running (fst (snd ?r))" using "1.prems"(3) by (simp add: event_sender_body_running)
    have el: "s_elapsed (env k) = us" using "1.prems"(1) by simp
    have "map fst (snd (snd (event_sender env user end_time' events_per_second (Suc k)
                 (now + seconds (s_elapsed (env k)) + 1 / events_per_second) (fst (snd ?r))))) =
              map (\<lambda>i. now + seconds (s_elapsed (env k)) + 1 / events_per_second + real i * ?p)
                [0..<nat \<lceil>(end_time' - (now + seconds (s_elapsed (env k)) + 1 / events_per_second)) / ?p\<rceil>]"
      using True "1.prems" eps run' by (intro "1.IH" [OF _ refl]) simp_all
    then have IH: "map fst (snd (snd (event_sender env user end_time' events_per_second (Suc k)
                 (now + seconds us + 1 / events_per_second) (fst (snd ?r))))) =
              map (\<lambda>i. now + ?p + real i * ?p) [0..<nat \<lceil>(end_time' - (now + ?p)) / ?p\<rceil>]"
      by (simp add: el add.assoc)
    have "(end_time' - (now + ?p)) / ?p = (end_time' - now) / ?p - 1"
      using p by (simp add: field_simps)
    then have c: "\<lceil>(end_time' - (now + ?p)) / ?p\<rceil> = \<lceil>(end_time' - now) / ?p\<rceil> - 1"
      by simp
    have "0 < (end_time' - now) / ?p" using True p by simp
    then have pos: "0 < \<lceil>(end_time' - now) / ?p\<rceil>" by simp
    then have N: "?N = Suc (nat \<lceil>(end_time' - (now + ?p)) / ?p\<rceil>)"
      unfolding c by linarith
    have shift: "map (\<lambda>i. now + real i * ?p) [0..<Suc m] =
                 now # map (\<lambda>i. now + ?p + real i * ?p) [0..<m]" for m
    proof -
      have "[0..<Suc m] = 0 # map Suc [0..<m]" by (simp only: upt_conv_Cons map_Suc_upt zero_less_Suc)
      then have "map (\<lambda>i. now + real i * ?p) [0..<Suc m] =
                 map (\<lambda>i. now + real i * ?p) (0 # map Suc [0..<m])"
        by (simp only:)
      also have "\<dots> = now # map (\<lambda>i. now + ?p + real i * ?p) [0..<m]"
        by (simp add: algebra_simps add_divide_distrib)
      finally show ?thesis .
    qed
    show ?thesis
      unfolding N shift
      using True "1.prems" eps IH
      by (simp add: event_sender.simps [of env user end_time' events_per_second k now self]
            Let_def el event_sender_body_calls add.assoc)
  qed
qed

lemma steady_sender_times:
  "map fst (snd (snd (event_sender (steady_env t) user (now + 30) 10 0 now
      ((init_runner b)\<lparr>results := (results (init_runner b))\<lparr>start_time := Some now\<rparr>\<rparr>)))) =
   map (\<lambda>i. now + real i * (3 / 25)) [0..<250]"
proof -
  have el: "\<forall>k. s_elapsed (steady_env t k) = 20000" by (simp add: steady_env_def)
  have run: "running ((init_runner b)\<lparr>results := (results (init_runner b))\<lparr>start_time := Some now\<rparr>\<rparr>)"
    by (simp add: init_runner_def)
  have p: "seconds 20000 + 1 / 10 = 3 / 25" by (simp add: seconds_def)
  have n: "nat \<lceil>(now + 30 - now) / (3 / 25 :: real)\<rceil> = 250" by simp
  show ?thesis
    using event_sender_times [OF el _ run, of 10 user "now + 30" 0 now]
    unfolding p n by simp
qed

text \<open>
  Claim C4. \<^verbatim>\<open>run_full_test_suite\<close> runs the performance test for 30 seconds with a
  target of 10 events per second, over a pool of 8 session ids, and the test announces
  an expected total of 300 events. Each sender sleeps a tenth of a second after each
  submission, but there are three senders: against a receiver that answers in 20
  milliseconds each sender submits every 0.12 seconds, 250 times, and the three together
  submit 750 events in the 30 seconds, which is 25 events per second and not 10.
\<close>

theorem performance_stress_test_rate:
  "PerformanceStressTest 30 10 \<in> set run_full_test_suite
   \<and> length session_pool = 8
   \<and> fst (performance_stress_test steady_env user now (init_runner b) 30 10) =
       [StartingPerformance, DurationSetting 30, TargetRate 10, ExpectedTotal 300]
   \<and> map (\<lambda>r. map fst (snd r)) (snd (performance_stress_test steady_env user now (init_runner b) 30 10)) =
       replicate 3 (map (\<lambda>i. now + real i * (3 / 25)) [0..<250])
   \<and> sum_list (map (\<lambda>r. length (snd r))
         (snd (performance_stress_test steady_env user now (init_runner b) 30 10))) = 750"
proof -
  let ?P = "performance_stress_test steady_env user now (init_runner b) 30 10"
  have three: "[0..<3] = [0, 1, 2]" by code_simp
  have a: "PerformanceStressTest 30 10 \<in> set run_full_test_suite"
    by (simp add: run_full_test_suite_def)
  have b: "length session_pool = 8" by (simp add: session_pool_def)
  have c: "fst ?P = [StartingPerformance, DurationSetting 30, TargetRate 10, ExpectedTotal 300]"
    by (simp add: performance_stress_test_def Let_def)
  have d: "map (\<lambda>r. map fst (snd r)) (snd ?P) =
             replicate 3 (map (\<lambda>i. now + real i * (3 / 25)) [0..<250])"
    unfolding performance_stress_test_def Let_def snd_conv three
    by (simp only: list.map steady_sender_times snd_conv) (simp add: numeral_3_eq_3)
  have "map (\<lambda>r. length (snd r)) (snd ?P) = map (\<lambda>r. length (map fst (snd r))) (snd ?P)"
    by simp
  also have "\<dots> = map length (map (\<lambda>r. map fst (snd r)) (snd ?P))"
    by (simp add: comp_def)
  also have "\<dots> = [250, 250, 250]"
    unfolding d by (simp add: numeral_3_eq_3)
  finally have e: "sum_list (map (\<lambda>r. length (snd r)) (snd ?P)) = 750" by simp
  from a b c d e show ?thesis by (intro conjI)
qed

theorem performance_stress_test_rate_witness:
  "sum_list (map (\<lambda>r. length (snd r))
         (snd (performance_stress_test steady_env None 0 (init_runner ''hook'') 30 10))) = 750
   \<and> fst (performance_stress_test steady_env None 0 (init_runner ''hook'') 30 10) ! 3 = ExpectedTotal 300"
  using performance_stress_test_rate [of None 0 "''hook''"] by simp

section \<open>The concurrent sessions test\<close>















end
